theory Spec2Isabelle
  imports Main "HOL-Library.Signed_Division"
begin

section \<open>The wrapper \<open>Integral<T>\<close> of \<open>Integral.hpp\<close>\<close>

text \<open>
  The class template \<open>compuSUAVE_Professional::Integral<T>\<close> holds one member,
  \<open>T m_value\<close>. The template parameter \<open>T\<close> is an explicit argument of the model: a
  descriptor giving the signedness and the width of the integer type. The member is
  modelled by its numeric value, an \<open>int\<close> inside the range of \<open>T\<close>, and every
  conversion to \<open>T\<close> is written out (\<open>wrap\<close>).

  \<open>T\<close> ranges over \<open>short\<close>, \<open>int\<close>, \<open>long\<close>, \<open>long long\<close> and their unsigned
  versions. For the character types and \<open>bool\<close> the stream operators of the standard
  library transfer a character or a truth value instead of a numeral; these
  instantiations are outside the model.

  Two widths of the platform decide what the arithmetic of the source means: the width
  of \<open>int\<close> (integral promotion) and the width of \<open>std::size_t\<close> (the type of the
  \<open>radix\<close> parameter of \<open>toRadix\<close>). Both are parameters as well. The model assumes
  that \<open>std::size_t\<close> is at least as wide as \<open>int\<close>.
\<close>

record itype =
  is_signed :: bool
  bits :: nat

record platform =
  int_bits :: nat
  size_bits :: nat

record Integral =
  m_value :: int

text \<open>\<open>std::numeric_limits<T>::min()\<close>, \<open>max()\<close> and \<open>digits\<close>; the static members
  \<open>Integral<T>::min()\<close> and \<open>Integral<T>::max()\<close> return the first two.\<close>

definition min_limit :: "itype \<Rightarrow> int" where
  "min_limit T = (if is_signed T then - (2 ^ (bits T - 1)) else 0)"

definition max_limit :: "itype \<Rightarrow> int" where
  "max_limit T = (if is_signed T then 2 ^ (bits T - 1) - 1 else 2 ^ bits T - 1)"


definition in_range :: "itype \<Rightarrow> int \<Rightarrow> bool" where
  "in_range T x = (min_limit T \<le> x \<and> x \<le> max_limit T)"

text \<open>\<open>static_cast<T>(x)\<close> for an integer \<open>x\<close>: the value modulo \<open>2 ^ bits\<close>, read as
  two's complement when \<open>T\<close> is signed.\<close>

definition wrap :: "itype \<Rightarrow> int \<Rightarrow> int" where
  "wrap T x =
     (if is_signed T
      then (x + 2 ^ (bits T - 1)) mod 2 ^ bits T - 2 ^ (bits T - 1)
      else x mod 2 ^ bits T)"

text \<open>Integral promotion: an operand narrower than \<open>int\<close> becomes an \<open>int\<close>.\<close>

definition promote :: "platform \<Rightarrow> itype \<Rightarrow> itype" where
  "promote P T =
     (if bits T < int_bits P then \<lparr>is_signed = True, bits = int_bits P\<rparr> else T)"

text \<open>The value of a built-in arithmetic expression on operands of type \<open>T\<close> whose
  mathematical result is \<open>r\<close>: it is computed in the promoted type, where unsigned
  arithmetic wraps around and signed overflow is undefined behaviour (\<open>None\<close>).\<close>

definition arith :: "platform \<Rightarrow> itype \<Rightarrow> int \<Rightarrow> int option" where
  "arith P T r =
     (let T' = promote P T in
      if is_signed T' then (if in_range T' r then Some r else None)
      else Some (wrap T' r))"

subsection \<open>Constructors and conversions\<close>

text \<open>\<open>Integral()\<close>, \<open>Integral(const T value)\<close> and the constructor from a compatible
  type, \<open>m_value{static_cast<T>(ct)}\<close>. An arithmetic expression on operands narrower
  than \<open>int\<close> has type \<open>int\<close> and selects the last one.\<close>

definition Integral_default :: "Integral" where
  "Integral_default = \<lparr>m_value = 0\<rparr>"

definition Integral_of :: "int \<Rightarrow> Integral" where
  "Integral_of v = \<lparr>m_value = v\<rparr>"

definition Integral_from :: "itype \<Rightarrow> int \<Rightarrow> Integral" where
  "Integral_from T ct = \<lparr>m_value = wrap T ct\<rparr>"

text \<open>\<open>operator T()\<close>.\<close>

definition toNumeric :: "Integral \<Rightarrow> int" where
  "toNumeric x = m_value x"

subsection \<open>Arithmetic\<close>

definition op_add :: "platform \<Rightarrow> itype \<Rightarrow> Integral \<Rightarrow> Integral \<Rightarrow> Integral option" where
  "op_add P T lhs rhs = map_option (Integral_from T) (arith P T (m_value lhs + m_value rhs))"

definition op_sub :: "platform \<Rightarrow> itype \<Rightarrow> Integral \<Rightarrow> Integral \<Rightarrow> Integral option" where
  "op_sub P T lhs rhs = map_option (Integral_from T) (arith P T (m_value lhs - m_value rhs))"

definition op_mul :: "platform \<Rightarrow> itype \<Rightarrow> Integral \<Rightarrow> Integral \<Rightarrow> Integral option" where
  "op_mul P T lhs rhs = map_option (Integral_from T) (arith P T (m_value lhs * m_value rhs))"

text \<open>\<open>/\<close> and \<open>%\<close> truncate towards zero. A zero divisor is undefined behaviour, and so
  is a quotient that the promoted type cannot represent, for both operators.\<close>

definition op_div :: "platform \<Rightarrow> itype \<Rightarrow> Integral \<Rightarrow> Integral \<Rightarrow> Integral option" where
  "op_div P T lhs rhs =
     (if m_value rhs = 0 then None
      else map_option (Integral_from T) (arith P T (m_value lhs sdiv m_value rhs)))"

definition op_mod :: "platform \<Rightarrow> itype \<Rightarrow> Integral \<Rightarrow> Integral \<Rightarrow> Integral option" where
  "op_mod P T lhs rhs =
     (if m_value rhs = 0 then None
      else case arith P T (m_value lhs sdiv m_value rhs) of
             None \<Rightarrow> None
           | Some q \<Rightarrow> map_option (Integral_from T) (arith P T (m_value lhs smod m_value rhs)))"

definition op_neg :: "platform \<Rightarrow> itype \<Rightarrow> Integral \<Rightarrow> Integral option" where
  "op_neg P T x = map_option (Integral_from T) (arith P T (- m_value x))"

subsection \<open>Comparison\<close>

definition op_eq :: "Integral \<Rightarrow> Integral \<Rightarrow> bool" where
  "op_eq lhs rhs = (m_value lhs = m_value rhs)"

definition op_ne :: "Integral \<Rightarrow> Integral \<Rightarrow> bool" where
  "op_ne lhs rhs = (\<not> op_eq lhs rhs)"

definition op_lt :: "Integral \<Rightarrow> Integral \<Rightarrow> bool" where
  "op_lt lhs rhs = (m_value lhs < m_value rhs)"

definition op_gt :: "Integral \<Rightarrow> Integral \<Rightarrow> bool" where
  "op_gt lhs rhs = (\<not> op_lt lhs rhs)"

definition op_le :: "Integral \<Rightarrow> Integral \<Rightarrow> bool" where
  "op_le lhs rhs = (op_lt lhs rhs \<or> op_eq lhs rhs)"

definition op_ge :: "Integral \<Rightarrow> Integral \<Rightarrow> bool" where
  "op_ge lhs rhs = (\<not> op_le lhs rhs)"

subsection \<open>Objects and references\<close>

text \<open>
  The increment and decrement operators change the object they are called on, the
  prefix forms return \<open>*this\<close>, and \<open>min\<close> and \<open>max\<close> return a reference to one of their
  arguments. Objects therefore live in a store, and a reference is an address.
\<close>

type_synonym ref = nat
type_synonym store = "ref \<Rightarrow> Integral"

text \<open>\<open>++m_value\<close> and \<open>--m_value\<close>: the sum is formed in the promoted type and
  converted back to \<open>T\<close>.\<close>

definition pre_inc :: "platform \<Rightarrow> itype \<Rightarrow> store \<Rightarrow> ref \<Rightarrow> (store \<times> ref) option" where
  "pre_inc P T h this =
     (case arith P T (m_value (h this) + 1) of
        None \<Rightarrow> None
      | Some r \<Rightarrow> Some (h(this := \<lparr>m_value = wrap T r\<rparr>), this))"

definition post_inc :: "platform \<Rightarrow> itype \<Rightarrow> store \<Rightarrow> ref \<Rightarrow> (store \<times> Integral) option" where
  "post_inc P T h this =
     (case arith P T (m_value (h this) + 1) of
        None \<Rightarrow> None
      | Some r \<Rightarrow> Some (h(this := \<lparr>m_value = wrap T r\<rparr>), Integral_of (m_value (h this))))"

definition pre_dec :: "platform \<Rightarrow> itype \<Rightarrow> store \<Rightarrow> ref \<Rightarrow> (store \<times> ref) option" where
  "pre_dec P T h this =
     (case arith P T (m_value (h this) - 1) of
        None \<Rightarrow> None
      | Some r \<Rightarrow> Some (h(this := \<lparr>m_value = wrap T r\<rparr>), this))"

definition post_dec :: "platform \<Rightarrow> itype \<Rightarrow> store \<Rightarrow> ref \<Rightarrow> (store \<times> Integral) option" where
  "post_dec P T h this =
     (case arith P T (m_value (h this) - 1) of
        None \<Rightarrow> None
      | Some r \<Rightarrow> Some (h(this := \<lparr>m_value = wrap T r\<rparr>), Integral_of (m_value (h this))))"

text \<open>The friends \<open>min\<close> and \<open>max\<close>: \<open>(lhs < rhs) ? lhs : rhs\<close> and
  \<open>(lhs > rhs) ? lhs : rhs\<close>, as references.\<close>

definition min_integral :: "store \<Rightarrow> ref \<Rightarrow> ref \<Rightarrow> ref" where
  "min_integral h lhs rhs = (if op_lt (h lhs) (h rhs) then lhs else rhs)"

definition max_integral :: "store \<Rightarrow> ref \<Rightarrow> ref \<Rightarrow> ref" where
  "max_integral h lhs rhs = (if op_gt (h lhs) (h rhs) then lhs else rhs)"

subsection \<open>Construction from a string\<close>



text \<open>\<open>std::isspace\<close> in the classic locale: space, \<open>\t\<close>, \<open>\n\<close>, \<open>\v\<close>, \<open>\f\<close>, \<open>\r\<close>.\<close>

definition isspace :: "char \<Rightarrow> bool" where
  "isspace c = (c = CHR '' '' \<or> (9 \<le> (of_char c :: nat) \<and> (of_char c :: nat) \<le> 13))"

text \<open>The value of a character as a digit: \<open>0\<close> to \<open>9\<close>, \<open>a\<close> to \<open>f\<close>, \<open>A\<close> to \<open>F\<close>.\<close>

definition digit_val :: "char \<Rightarrow> nat option" where
  "digit_val c =
     (let n = (of_char c :: nat) in
      if 48 \<le> n \<and> n \<le> 57 then Some (n - 48)
      else if 97 \<le> n \<and> n \<le> 102 then Some (n - 87)
      else if 65 \<le> n \<and> n \<le> 70 then Some (n - 55)
      else None)"

definition is_digit :: "nat \<Rightarrow> char \<Rightarrow> bool" where
  "is_digit base c = (case digit_val c of None \<Rightarrow> False | Some d \<Rightarrow> d < base)"

definition digit_of :: "char \<Rightarrow> nat" where
  "digit_of c = (case digit_val c of None \<Rightarrow> 0 | Some d \<Rightarrow> d)"

text \<open>Accumulating digits from left to right, as the extraction and the bitset do.\<close>

definition accumulate :: "nat \<Rightarrow> string \<Rightarrow> nat" where
  "accumulate base ds = foldl (\<lambda>r c. r * base + digit_of c) 0 ds"











subsection \<open>Conversion to text\<close>

text \<open>
  Formatted output of a number by the standard library: \<open>put_unsigned base n\<close> is the
  numeral of \<open>n\<close> in the base with lower-case digits, \<open>0\<close> for zero; \<open>to_string\<close> is
  \<open>std::to_string\<close>, which is also what \<open>stream << v\<close> writes for an \<open>int\<close> in the
  default decimal base.
\<close>

definition digit_char :: "nat \<Rightarrow> char" where
  "digit_char d = ''0123456789abcdef'' ! d"

function put_unsigned :: "nat \<Rightarrow> nat \<Rightarrow> string" where
  "put_unsigned base n =
     (if n < base \<or> base < 2 then [digit_char n]
      else put_unsigned base (n div base) @ [digit_char (n mod base)])"
  by pat_completeness auto
termination
  by (relation "measure (\<lambda>(base, n). n)") auto

declare put_unsigned.simps [simp del]

definition to_string :: "int \<Rightarrow> string" where
  "to_string v =
     (if v < 0 then CHR ''-'' # put_unsigned 10 (nat (- v)) else put_unsigned 10 (nat v))"

text \<open>\<open>operator std::string()\<close>, the textual conversion.\<close>

definition operator_string :: "Integral \<Rightarrow> string" where
  "operator_string x = to_string (m_value x)"

text \<open>\<open>stream << std::hex << m_value\<close> and \<open>std::oct\<close>: the value is written as the
  unsigned number with the same bits.\<close>

definition put_based :: "itype \<Rightarrow> nat \<Rightarrow> int \<Rightarrow> string" where
  "put_based T base v = put_unsigned base (nat (v mod 2 ^ bits T))"

text \<open>\<open>result_buffer >> result\<close>: white space is skipped and the characters up to the
  next white space are stored; when there is none, \<open>result\<close> stays empty.\<close>

definition read_token :: "string \<Rightarrow> string" where
  "read_token buf = takeWhile (\<lambda>c. \<not> isspace c) (dropWhile isspace buf)"

subsection \<open>Conversion to a radix\<close>

text \<open>
  In \<open>value % radix\<close> and \<open>value /= radix\<close> the left operand has type \<open>T\<close> and the right
  one has type \<open>std::size_t\<close>. By the usual arithmetic conversions the operation is
  carried out in \<open>std::size_t\<close> when \<open>T\<close> is not wider than it, whatever the sign of \<open>T\<close>;
  in \<open>T\<close> itself when \<open>T\<close> is wider. Only in the second case, and for a signed \<open>T\<close>, is
  it a signed operation, truncating towards zero. In the unsigned case a negative
  \<open>value\<close> is first converted, that is, taken modulo 2 to the width.
\<close>

definition radix_unsigned :: "platform \<Rightarrow> itype \<Rightarrow> bool" where
  "radix_unsigned P T = (\<not> is_signed T \<or> bits T \<le> size_bits P)"

definition common_bits :: "platform \<Rightarrow> itype \<Rightarrow> nat" where
  "common_bits P T = max (bits T) (size_bits P)"

definition rem_radix :: "platform \<Rightarrow> itype \<Rightarrow> int \<Rightarrow> nat \<Rightarrow> int" where
  "rem_radix P T v radix =
     (if radix_unsigned P T then (v mod 2 ^ common_bits P T) mod int radix
      else v smod int radix)"

definition quot_radix :: "platform \<Rightarrow> itype \<Rightarrow> int \<Rightarrow> nat \<Rightarrow> int" where
  "quot_radix P T v radix =
     (if radix_unsigned P T then (v mod 2 ^ common_bits P T) div int radix
      else v sdiv int radix)"

text \<open>
  The first loop of the general branch,
  \<open>while (value != 0) { result_stack.push(value % radix); value /= radix; }\<close>.
  The stack is a list with its top at the head. The remainder is smaller in magnitude
  than \<open>radix\<close>, which is at most 15 on this branch, so storing it in the
  \<open>std::stack<int>\<close> does not change it. The quotient is converted back to \<open>T\<close>.
  The loop need not end; a run that does not end is \<open>None\<close>.
\<close>

partial_function (option) push_loop ::
  "platform \<Rightarrow> itype \<Rightarrow> nat \<Rightarrow> int \<Rightarrow> int list \<Rightarrow> int list option" where
  "push_loop P T radix v result_stack =
     (if v \<noteq> 0
      then push_loop P T radix (wrap T (quot_radix P T v radix))
             (rem_radix P T v radix # result_stack)
      else Some result_stack)"

declare push_loop.simps [code]

text \<open>The second loop,
  \<open>while (!result_stack.empty()) { result_buffer << result_stack.top(); result_stack.pop(); }\<close>.\<close>

fun pop_loop :: "int list \<Rightarrow> string \<Rightarrow> string" where
  "pop_loop [] result_buffer = result_buffer"
| "pop_loop (top_value # result_stack) result_buffer =
     pop_loop result_stack (result_buffer @ to_string top_value)"

text \<open>
  \<open>toRadix\<close> returns a \<open>const char*\<close>. A pointer obtained from \<open>c_str()\<close> points into
  the storage of a \<open>std::string\<close>; it is modelled by the characters that string held
  when \<open>c_str()\<close> was called, together with the state of the string at the moment the
  caller receives the pointer. Reading characters through the pointer, as \<open>strcmp\<close>
  does in the tests of the repository, is defined only while the string is alive; on a
  destroyed string it is undefined behaviour, which is \<open>None\<close>.
\<close>

datatype lifetime = Alive | Destroyed

record char_ptr =
  pointee :: string
  pointee_state :: lifetime

definition read_chars :: "char_ptr \<Rightarrow> string option" where
  "read_chars p = (if pointee_state p = Alive then Some (pointee p) else None)"

text \<open>\<open>strcmp(p, s) == 0\<close>, the comparison the tests make.\<close>

definition strcmp_is_0 :: "char_ptr \<Rightarrow> string \<Rightarrow> bool option" where
  "strcmp_is_0 p s = map_option (\<lambda>chars. chars = s) (read_chars p)"

text \<open>
  \<open>return std::to_string(m_value).c_str();\<close> and \<open>return (result).c_str();\<close>. In the
  first the string is a temporary, destroyed at the end of the \<open>return\<close> statement; in
  the second it is the local variable \<open>result\<close>, destroyed when the function returns.
  Either way the caller receives a pointer into a string that no longer exists.
\<close>

definition return_c_str :: "string \<Rightarrow> char_ptr" where
  "return_c_str str = \<lparr>pointee = str, pointee_state = Destroyed\<rparr>"

text \<open>\<open>toRadix\<close>. A first loop that does not end gives no result at all (\<open>None\<close>).\<close>

definition toRadix :: "platform \<Rightarrow> itype \<Rightarrow> Integral \<Rightarrow> nat \<Rightarrow> char_ptr option" where
  "toRadix P T x radix =
     (if radix = 0 \<or> 16 < radix then Some (return_c_str (to_string (m_value x)))
      else if radix = 16 then Some (return_c_str (read_token (put_based T 16 (m_value x))))
      else if radix = 8 then Some (return_c_str (read_token (put_based T 8 (m_value x))))
      else case push_loop P T radix (m_value x) [] of
             None \<Rightarrow> None
           | Some result_stack \<Rightarrow>
               Some (return_c_str (read_token (pop_loop result_stack []))))"

definition hex :: "platform \<Rightarrow> itype \<Rightarrow> Integral \<Rightarrow> char_ptr option" where
  "hex P T x = toRadix P T x 16"

definition dec :: "platform \<Rightarrow> itype \<Rightarrow> Integral \<Rightarrow> char_ptr option" where
  "dec P T x = toRadix P T x 10"

definition oct :: "platform \<Rightarrow> itype \<Rightarrow> Integral \<Rightarrow> char_ptr option" where
  "oct P T x = toRadix P T x 8"

definition bin :: "platform \<Rightarrow> itype \<Rightarrow> Integral \<Rightarrow> char_ptr option" where
  "bin P T x = toRadix P T x 2"

text \<open>
  The digits of a natural number in a base, most significant first, with no digit for
  zero: what repeated division pushes, read from the top of the stack.
\<close>

function spec_digits :: "nat \<Rightarrow> nat \<Rightarrow> nat list" where
  "spec_digits radix n =
     (if n = 0 \<or> radix < 2 then []
      else spec_digits radix (n div radix) @ [n mod radix])"
  by pat_completeness auto
termination
  by (relation "measure (\<lambda>(radix, n). n)") auto

declare spec_digits.simps [simp del]

text \<open>The types and the platform of the examples: a 64-bit platform with 32-bit \<open>int\<close>.\<close>

definition int32 :: itype where
  "int32 = \<lparr>is_signed = True, bits = 32\<rparr>"

definition int64 :: itype where
  "int64 = \<lparr>is_signed = True, bits = 64\<rparr>"


definition lp64 :: platform where
  "lp64 = \<lparr>int_bits = 32, size_bits = 64\<rparr>"

definition ilp32 :: platform where
  "ilp32 = \<lparr>int_bits = 32, size_bits = 32\<rparr>"

section \<open>Properties\<close>

lemma wrap_in_range: "0 < bits T \<Longrightarrow> in_range T x \<Longrightarrow> wrap T x = x"
proof -
  assume b: "0 < bits T" and r: "in_range T x"
  have p: "(2::int) ^ bits T = 2 * 2 ^ (bits T - 1)"
    using b by (cases "bits T") simp_all
  show ?thesis
  proof (cases "is_signed T")
    case True
    with r have "0 \<le> x + 2 ^ (bits T - 1)" "x + 2 ^ (bits T - 1) < 2 ^ bits T"
      by (simp_all add: in_range_def min_limit_def max_limit_def p)
    then have "(x + 2 ^ (bits T - 1)) mod 2 ^ bits T = x + 2 ^ (bits T - 1)"
      by simp
    with True show ?thesis by (simp add: wrap_def)
  next
    case False
    with r have "0 \<le> x" "x < 2 ^ bits T"
      by (simp_all add: in_range_def min_limit_def max_limit_def)
    with False show ?thesis by (simp add: wrap_def)
  qed
qed

lemma in_range_promote:
  "0 < bits T \<Longrightarrow> in_range T x \<Longrightarrow> in_range (promote P T) x"
proof -
  assume b: "0 < bits T" and r: "in_range T x"
  show ?thesis
  proof (cases "bits T < int_bits P")
    case False
    with r show ?thesis by (simp add: promote_def)
  next
    case True
    then have le: "bits T \<le> int_bits P - 1" by simp
    have "(2::int) ^ (bits T - 1) \<le> 2 ^ bits T" by (rule power_increasing) simp_all
    also have "(2::int) ^ bits T \<le> 2 ^ (int_bits P - 1)"
      using le by (rule power_increasing) simp
    finally have s: "(2::int) ^ (bits T - 1) \<le> 2 ^ (int_bits P - 1)" .
    have u: "(2::int) ^ bits T \<le> 2 ^ (int_bits P - 1)"
      using le by (rule power_increasing) simp
    have pT: "promote P T = \<lparr>is_signed = True, bits = int_bits P\<rparr>"
      using True by (simp add: promote_def)
    show ?thesis
    proof (cases "is_signed T")
      case True
      with r have "- (2 ^ (bits T - 1)) \<le> x" "x \<le> 2 ^ (bits T - 1) - 1"
        by (simp_all add: in_range_def min_limit_def max_limit_def)
      with s have "- (2 ^ (int_bits P - 1)) \<le> x" "x \<le> 2 ^ (int_bits P - 1) - 1"
        by linarith+
      then show ?thesis
        by (simp add: pT in_range_def min_limit_def max_limit_def)
    next
      case False
      with r have "0 \<le> x" "x \<le> 2 ^ bits T - 1"
        by (simp_all add: in_range_def min_limit_def max_limit_def)
      moreover have "(0::int) \<le> 2 ^ (int_bits P - 1)" by simp
      ultimately have "- (2 ^ (int_bits P - 1)) \<le> x" "x \<le> 2 ^ (int_bits P - 1) - 1"
        using u by linarith+
      then show ?thesis
        by (simp add: pT in_range_def min_limit_def max_limit_def)
    qed
  qed
qed

lemma arith_in_range:
  "0 < bits T \<Longrightarrow> in_range T r \<Longrightarrow> arith P T r = Some r"
proof -
  assume b: "0 < bits T" and r: "in_range T r"
  have pr: "in_range (promote P T) r" using b r by (rule in_range_promote)
  have "0 < bits (promote P T)" using b by (simp add: promote_def)
  then have "wrap (promote P T) r = r" using pr by (rule wrap_in_range)
  with pr show ?thesis by (simp add: arith_def Let_def)
qed

text \<open>
  Claim C1. For all objects \<open>a\<close> and \<open>b\<close>: \<open>a != b\<close> is the negation of \<open>a == b\<close>;
  \<open>a > b\<close> is the negation of \<open>a < b\<close>, hence true exactly when the value of \<open>a\<close> is
  greater than or equal to that of \<open>b\<close>; \<open>a <= b\<close> is \<open>a < b\<close> or \<open>a == b\<close>; \<open>a >= b\<close>
  is the negation of \<open>a <= b\<close>, hence true exactly when the value of \<open>a\<close> is strictly
  greater; and \<open>a > a\<close> is true.
\<close>

theorem C1_comparison_operators:
  "op_ne a b = (\<not> op_eq a b)
   \<and> op_gt a b = (\<not> op_lt a b)
   \<and> op_gt a b = (m_value b \<le> m_value a)
   \<and> (op_eq a b \<and> op_gt a b) = op_eq a b
   \<and> op_le a b = (op_lt a b \<or> op_eq a b)
   \<and> op_ge a b = (\<not> op_le a b)
   \<and> op_ge a b = (m_value b < m_value a)
   \<and> op_gt a a"
  by (auto simp: op_ne_def op_eq_def op_gt_def op_lt_def op_le_def op_ge_def)

theorem C1_comparison_operators_witness:
  "op_gt (Integral_of 7) (Integral_of 7) \<and> op_gt (Integral_of 7) (Integral_of 1)
   \<and> \<not> op_ge (Integral_of 7) (Integral_of 7) \<and> op_le (Integral_of 7) (Integral_of 7)
   \<and> op_ne (Integral_of 7) (Integral_of 1)"
  using C1_comparison_operators [of "Integral_of 7" "Integral_of 7"]
    C1_comparison_operators [of "Integral_of 7" "Integral_of 1"]
  by (simp add: Integral_of_def op_eq_def op_lt_def)

text \<open>
  Claim C6. \<open>min(a, b)\<close> returns a reference to one of its two arguments: to \<open>a\<close> when
  \<open>a < b\<close>, and to the right-hand argument \<open>b\<close> otherwise, the tie included.
  \<open>max(a, b)\<close> returns a reference to the left-hand argument \<open>a\<close> when \<open>a > b\<close> holds
  for the derived operator, that is when the value of \<open>a\<close> is not less than that of
  \<open>b\<close>, the tie included, and to \<open>b\<close> otherwise. No object is created or changed: the
  result is one of the two addresses passed in. With 12 and 24 the minimum holds 12 and
  the maximum holds 24.
\<close>

theorem C6_min_max_select:
  "(min_integral h a b = a \<or> min_integral h a b = b)
   \<and> (max_integral h a b = a \<or> max_integral h a b = b)
   \<and> min_integral h a b = (if op_lt (h a) (h b) then a else b)
   \<and> min_integral h a b = (if m_value (h a) < m_value (h b) then a else b)
   \<and> max_integral h a b = (if op_gt (h a) (h b) then a else b)
   \<and> max_integral h a b = (if m_value (h b) \<le> m_value (h a) then a else b)
   \<and> (if op_eq (h a) (h b) then min_integral h a b = b \<and> max_integral h a b = a
       else toNumeric (h (min_integral h a b)) < toNumeric (h (max_integral h a b)))
   \<and> toNumeric (((\<lambda>r. Integral_default)(0 := Integral_of 12, 1 := Integral_of 24))
        (min_integral ((\<lambda>r. Integral_default)(0 := Integral_of 12, 1 := Integral_of 24)) 0 1)) = 12
   \<and> toNumeric (((\<lambda>r. Integral_default)(0 := Integral_of 12, 1 := Integral_of 24))
        (max_integral ((\<lambda>r. Integral_default)(0 := Integral_of 12, 1 := Integral_of 24)) 0 1)) = 24"
  by (simp add: min_integral_def max_integral_def op_lt_def op_gt_def op_eq_def
      toNumeric_def Integral_of_def)

theorem C6_min_max_select_witness:
  "min_integral ((\<lambda>r. Integral_default)(0 := Integral_of 7, 1 := Integral_of 7)) 0 1 = 1
   \<and> max_integral ((\<lambda>r. Integral_default)(0 := Integral_of 7, 1 := Integral_of 7)) 0 1 = 0
   \<and> min_integral ((\<lambda>r. Integral_default)(0 := Integral_of 24, 1 := Integral_of 12)) 0 1 = 1
   \<and> max_integral ((\<lambda>r. Integral_default)(0 := Integral_of 24, 1 := Integral_of 12)) 0 1 = 0"
  using C6_min_max_select
    [of "(\<lambda>r. Integral_default)(0 := Integral_of 7, 1 := Integral_of 7)" 0 1]
    C6_min_max_select
    [of "(\<lambda>r. Integral_default)(0 := Integral_of 24, 1 := Integral_of 12)" 0 1]
  by (simp add: Integral_of_def op_eq_def)

text \<open>
  Claim C7. On an object \<open>x\<close> whose value can be incremented (decremented) inside the
  range of \<open>T\<close>, prefix \<open>++\<close> (\<open>--\<close>) changes the value of \<open>x\<close> by one, leaves every
  other object alone and returns the address of \<open>x\<close> itself, so that reading the result
  gives the value after the change; postfix \<open>++\<close> (\<open>--\<close>) makes the same change to \<open>x\<close>
  and returns a new object, not a reference, that holds the value from before the change.
\<close>

theorem C7_increment_decrement:
  assumes "0 < bits T" and "in_range T (m_value (h x))"
  shows "(in_range T (m_value (h x) + 1) \<longrightarrow>
            pre_inc P T h x = Some (h(x := \<lparr>m_value = m_value (h x) + 1\<rparr>), x)
          \<and> post_inc P T h x =
              Some (h(x := \<lparr>m_value = m_value (h x) + 1\<rparr>), \<lparr>m_value = m_value (h x)\<rparr>))
       \<and> (in_range T (m_value (h x) - 1) \<longrightarrow>
            pre_dec P T h x = Some (h(x := \<lparr>m_value = m_value (h x) - 1\<rparr>), x)
          \<and> post_dec P T h x =
              Some (h(x := \<lparr>m_value = m_value (h x) - 1\<rparr>), \<lparr>m_value = m_value (h x)\<rparr>))"
proof (intro conjI impI)
  assume r: "in_range T (m_value (h x) + 1)"
  have a: "arith P T (m_value (h x) + 1) = Some (m_value (h x) + 1)"
    using assms(1) r by (rule arith_in_range)
  have w: "wrap T (m_value (h x) + 1) = m_value (h x) + 1"
    using assms(1) r by (rule wrap_in_range)
  show "pre_inc P T h x = Some (h(x := \<lparr>m_value = m_value (h x) + 1\<rparr>), x)"
    by (simp add: pre_inc_def a w)
  show "post_inc P T h x =
      Some (h(x := \<lparr>m_value = m_value (h x) + 1\<rparr>), \<lparr>m_value = m_value (h x)\<rparr>)"
    by (simp add: post_inc_def a w Integral_of_def)
next
  assume r: "in_range T (m_value (h x) - 1)"
  have a: "arith P T (m_value (h x) - 1) = Some (m_value (h x) - 1)"
    using assms(1) r by (rule arith_in_range)
  have w: "wrap T (m_value (h x) - 1) = m_value (h x) - 1"
    using assms(1) r by (rule wrap_in_range)
  show "pre_dec P T h x = Some (h(x := \<lparr>m_value = m_value (h x) - 1\<rparr>), x)"
    by (simp add: pre_dec_def a w)
  show "post_dec P T h x =
      Some (h(x := \<lparr>m_value = m_value (h x) - 1\<rparr>), \<lparr>m_value = m_value (h x)\<rparr>)"
    by (simp add: post_dec_def a w Integral_of_def)
qed

theorem C7_increment_decrement_witness:
  "pre_inc lp64 int64 ((\<lambda>r. Integral_default)(0 := Integral_of 1)) 0
     = Some ((\<lambda>r. Integral_default)(0 := Integral_of 2), 0)
   \<and> post_inc lp64 int64 ((\<lambda>r. Integral_default)(0 := Integral_of 1)) 0
     = Some ((\<lambda>r. Integral_default)(0 := Integral_of 2), Integral_of 1)
   \<and> pre_dec lp64 int64 ((\<lambda>r. Integral_default)(0 := Integral_of 1)) 0
     = Some ((\<lambda>r. Integral_default)(0 := Integral_of 0), 0)
   \<and> post_dec lp64 int64 ((\<lambda>r. Integral_default)(0 := Integral_of 1)) 0
     = Some ((\<lambda>r. Integral_default)(0 := Integral_of 0), Integral_of 1)"
  using C7_increment_decrement
    [of int64 "(\<lambda>r. Integral_default)(0 := Integral_of 1)" 0 lp64]
  by (simp add: int64_def Integral_of_def in_range_def min_limit_def max_limit_def)

subsection \<open>Construction from a string\<close>

lemma max_limit_nonneg: "0 \<le> max_limit T"
  by (simp add: max_limit_def)



lemma accumulate_snoc: "accumulate base (ds @ [c]) = accumulate base ds * base + digit_of c"
  by (simp add: accumulate_def)







lemma min_limit_nonpos: "min_limit T \<le> 0"
  by (simp add: min_limit_def)


















subsection \<open>Arithmetic\<close>

lemma in_range_between:
  "in_range T a \<Longrightarrow> in_range T b \<Longrightarrow> a \<le> x \<Longrightarrow> x \<le> b \<Longrightarrow> in_range T x"
  by (simp add: in_range_def)

lemma in_range_0: "in_range T 0"
  using min_limit_nonpos [of T] max_limit_nonneg [of T] by (simp add: in_range_def)

lemma smod_between: "(0 \<le> (a::int) \<longrightarrow> 0 \<le> a smod b \<and> a smod b \<le> a)
   \<and> (a \<le> 0 \<longrightarrow> a \<le> a smod b \<and> a smod b \<le> 0)"
proof -
  have m: "0 \<le> \<bar>a\<bar> mod \<bar>b\<bar>" "\<bar>a\<bar> mod \<bar>b\<bar> \<le> \<bar>a\<bar>"
    by (cases "b = 0"; simp add: zmod_le_nonneg_dividend)+
  show ?thesis
  proof (cases "0 \<le> a")
    case True
    with m show ?thesis
      by (cases "a = 0") (simp_all add: signed_modulo_int_def)
  next
    case False
    with m show ?thesis by (simp add: signed_modulo_int_def)
  qed
qed

lemma in_range_smod: "in_range T a \<Longrightarrow> in_range T (a smod b)"
  using smod_between [of a b] in_range_0 [of T]
  by (cases "0 \<le> a") (auto intro: in_range_between)

text \<open>
  Claim C8. For operands \<open>a\<close> and \<open>b\<close> of \<open>Integral<T>\<close>: when the sum fits the range
  of \<open>T\<close>, \<open>a + b\<close> is defined and converts to the sum of the two values, and likewise
  for \<open>-\<close> and \<open>*\<close>; when \<open>b\<close> is not zero and the quotient fits the range of \<open>T\<close>,
  \<open>a / b\<close> and \<open>a % b\<close> are defined and convert to the quotient and the remainder of
  the division that truncates towards zero.
\<close>

theorem C8_arithmetic_agrees:
  assumes "0 < bits T" and "in_range T (toNumeric a)" and "in_range T (toNumeric b)"
  shows "(in_range T (toNumeric a + toNumeric b) \<longrightarrow>
            map_option toNumeric (op_add P T a b) = Some (toNumeric a + toNumeric b))
       \<and> (in_range T (toNumeric a - toNumeric b) \<longrightarrow>
            map_option toNumeric (op_sub P T a b) = Some (toNumeric a - toNumeric b))
       \<and> (in_range T (toNumeric a * toNumeric b) \<longrightarrow>
            map_option toNumeric (op_mul P T a b) = Some (toNumeric a * toNumeric b))
       \<and> (toNumeric b \<noteq> 0 \<and> in_range T (toNumeric a sdiv toNumeric b) \<longrightarrow>
            map_option toNumeric (op_div P T a b) = Some (toNumeric a sdiv toNumeric b))
       \<and> (toNumeric b \<noteq> 0 \<and> in_range T (toNumeric a sdiv toNumeric b) \<longrightarrow>
            map_option toNumeric (op_mod P T a b) = Some (toNumeric a smod toNumeric b))"
proof -
  have k: "map_option toNumeric (map_option (Integral_from T) (arith P T r)) = Some r"
    if "in_range T r" for r
    using arith_in_range [OF assms(1) that] wrap_in_range [OF assms(1) that]
    by (simp add: Integral_from_def toNumeric_def)
  have m: "in_range T (m_value a smod m_value b)"
    using assms(2) by (simp add: toNumeric_def in_range_smod)
  show ?thesis
  proof (intro conjI impI)
    assume "in_range T (toNumeric a + toNumeric b)"
    then show "map_option toNumeric (op_add P T a b) = Some (toNumeric a + toNumeric b)"
      using k [of "m_value a + m_value b"] by (simp add: op_add_def toNumeric_def)
  next
    assume "in_range T (toNumeric a - toNumeric b)"
    then show "map_option toNumeric (op_sub P T a b) = Some (toNumeric a - toNumeric b)"
      using k [of "m_value a - m_value b"] by (simp add: op_sub_def toNumeric_def)
  next
    assume "in_range T (toNumeric a * toNumeric b)"
    then show "map_option toNumeric (op_mul P T a b) = Some (toNumeric a * toNumeric b)"
      using k [of "m_value a * m_value b"] by (simp add: op_mul_def toNumeric_def)
  next
    assume "toNumeric b \<noteq> 0 \<and> in_range T (toNumeric a sdiv toNumeric b)"
    then show "map_option toNumeric (op_div P T a b) = Some (toNumeric a sdiv toNumeric b)"
      using k [of "m_value a sdiv m_value b"] by (simp add: op_div_def toNumeric_def)
  next
    assume d: "toNumeric b \<noteq> 0 \<and> in_range T (toNumeric a sdiv toNumeric b)"
    then have "arith P T (m_value a sdiv m_value b) = Some (m_value a sdiv m_value b)"
      using arith_in_range [OF assms(1), of "m_value a sdiv m_value b" P]
      by (simp add: toNumeric_def)
    then show "map_option toNumeric (op_mod P T a b) = Some (toNumeric a smod toNumeric b)"
      using d k [OF m] by (simp add: op_mod_def toNumeric_def)
  qed
qed

theorem C8_arithmetic_agrees_witness:
  "map_option toNumeric (op_add lp64 int32 (Integral_of 7) (Integral_of 2)) = Some 9
   \<and> map_option toNumeric (op_sub lp64 int32 (Integral_of 7) (Integral_of 2)) = Some 5
   \<and> map_option toNumeric (op_mul lp64 int32 (Integral_of 7) (Integral_of 2)) = Some 14
   \<and> map_option toNumeric (op_div lp64 int32 (Integral_of (- 7)) (Integral_of 2)) = Some (- 3)
   \<and> map_option toNumeric (op_mod lp64 int32 (Integral_of (- 7)) (Integral_of 2)) = Some (- 1)"
  using C8_arithmetic_agrees [of int32 "Integral_of 7" "Integral_of 2" lp64]
    C8_arithmetic_agrees [of int32 "Integral_of (- 7)" "Integral_of 2" lp64]
  by (simp add: int32_def Integral_of_def toNumeric_def in_range_def min_limit_def
      max_limit_def signed_divide_int_def signed_modulo_int_def)

subsection \<open>Conversion to text\<close>

lemma less_16_cases:
  "d < 16 \<Longrightarrow> d = 0 \<or> d = 1 \<or> d = 2 \<or> d = 3 \<or> d = 4 \<or> d = 5 \<or> d = 6 \<or> d = 7
     \<or> d = 8 \<or> d = 9 \<or> d = 10 \<or> d = 11 \<or> d = 12 \<or> d = 13 \<or> d = 14 \<or> d = (15::nat)"
  by arith

lemma digit_char_props:
  assumes "d < 16"
  shows "\<not> isspace (digit_char d)" and "digit_of (digit_char d) = d"
    and "digit_char d \<noteq> CHR ''-''"
  using less_16_cases [OF assms]
  by (auto simp: digit_char_def isspace_def digit_of_def digit_val_def)

lemma put_unsigned_chars:
  "2 \<le> base \<Longrightarrow> base \<le> 16 \<Longrightarrow> c \<in> set (put_unsigned base n) \<Longrightarrow> \<exists>d<16. c = digit_char d"
proof (induction base n rule: put_unsigned.induct)
  case (1 base n)
  show ?case
  proof (cases "n < base")
    case True
    with 1 show ?thesis
      by (subst (asm) (2) put_unsigned.simps) (auto intro: exI [of _ n])
  next
    case False
    with 1 have "c \<in> set (put_unsigned base (n div base)) \<or> c = digit_char (n mod base)"
      by (subst (asm) (2) put_unsigned.simps) auto
    moreover have "n mod base < 16"
      using 1(2,3) by (simp add: less_le_trans [OF mod_less_divisor])
    ultimately show ?thesis using 1 False by auto
  qed
qed

lemma accumulate_put_unsigned:
  "2 \<le> base \<Longrightarrow> base \<le> 16 \<Longrightarrow> accumulate base (put_unsigned base n) = n"
proof (induction base n rule: put_unsigned.induct)
  case (1 base n)
  show ?case
  proof (cases "n < base")
    case True
    with 1 show ?thesis
      by (subst put_unsigned.simps) (simp add: accumulate_def digit_char_props)
  next
    case False
    have "n mod base < 16" using 1(2,3) by (simp add: less_le_trans [OF mod_less_divisor])
    with 1 False show ?thesis
      by (subst put_unsigned.simps) (simp add: accumulate_snoc digit_char_props)
  qed
qed

lemma to_string_no_space: "c \<in> set (to_string v) \<Longrightarrow> \<not> isspace c"
proof -
  assume c: "c \<in> set (to_string v)"
  have "c = CHR ''-'' \<or> (\<exists>n. c \<in> set (put_unsigned 10 n))"
    using c by (auto simp: to_string_def split: if_splits)
  then show ?thesis
  proof
    assume "c = CHR ''-''"
    then show ?thesis by (simp add: isspace_def)
  next
    assume "\<exists>n. c \<in> set (put_unsigned 10 n)"
    then obtain n where "c \<in> set (put_unsigned 10 n)" ..
    then have "\<exists>d<16. c = digit_char d" by (intro put_unsigned_chars) simp_all
    then show ?thesis by (auto simp: digit_char_props)
  qed
qed

lemma pop_loop_concat: "pop_loop st buf = buf @ concat (map to_string st)"
  by (induction st arbitrary: buf) simp_all

lemma read_token_id: "\<forall>c\<in>set buf. \<not> isspace c \<Longrightarrow> read_token buf = buf"
proof -
  assume a: "\<forall>c\<in>set buf. \<not> isspace c"
  then have "dropWhile isspace buf = buf" by (cases buf) simp_all
  moreover have "takeWhile (\<lambda>c. \<not> isspace c) buf = buf" using a by (simp add: takeWhile_eq_all_conv)
  ultimately show ?thesis by (simp add: read_token_def)
qed

lemma read_token_pop_loop: "read_token (pop_loop st []) = concat (map to_string st)"
  by (simp add: pop_loop_concat read_token_id to_string_no_space)

lemma toRadix_general:
  assumes "0 < radix" and "radix \<le> 15" and "radix \<noteq> 8"
    and "push_loop P T radix (m_value x) [] = Some st"
  shows "toRadix P T x radix = Some (return_c_str (concat (map to_string st)))"
  using assms by (simp add: toRadix_def read_token_pop_loop)

lemma read_chars_return_c_str: "read_chars (return_c_str str) = None"
  by (simp add: read_chars_def return_c_str_def)

lemma strcmp_return_c_str: "strcmp_is_0 (return_c_str str) s = None"
  by (simp add: strcmp_is_0_def read_chars_return_c_str)

subsection \<open>The division loop\<close>

lemma max_limit_less_power: "max_limit T < 2 ^ bits T"
proof (cases "is_signed T")
  case True
  have "(2::int) ^ (bits T - 1) \<le> 2 ^ bits T" by (rule power_increasing) simp_all
  then have "(2::int) ^ (bits T - 1) - 1 < 2 ^ bits T" by linarith
  with True show ?thesis by (simp add: max_limit_def)
next
  case False
  then show ?thesis by (simp add: max_limit_def)
qed

lemma nonneg_mod_common:
  assumes "in_range T v" and "0 \<le> v"
  shows "v mod 2 ^ common_bits P T = v"
proof -
  have "v < 2 ^ bits T"
    using assms(1) max_limit_less_power [of T] by (simp add: in_range_def)
  also have "(2::int) ^ bits T \<le> 2 ^ common_bits P T"
    by (rule power_increasing) (simp_all add: common_bits_def)
  finally show ?thesis using assms(2) by simp
qed

lemma div_le_self_nonneg: "0 \<le> (x::int) \<Longrightarrow> x div k \<le> x"
  by (cases "x = 0") (simp_all add: int_div_le_self)

lemma radix_step_nonneg:
  assumes "0 < bits T" and "in_range T v" and "0 \<le> v" and "0 < radix"
  shows "rem_radix P T v radix = v mod int radix"
    and "wrap T (quot_radix P T v radix) = v div int radix"
proof -
  have c: "v mod 2 ^ common_bits P T = v" using assms(2,3) by (rule nonneg_mod_common)
  have s: "v smod int radix = v mod int radix" "v sdiv int radix = v div int radix"
    using assms(3,4) by (cases "v = 0"; simp add: signed_modulo_int_def signed_divide_int_def)+
  show "rem_radix P T v radix = v mod int radix"
    by (simp add: rem_radix_def c s)
  have q: "quot_radix P T v radix = v div int radix"
    by (simp add: quot_radix_def c s)
  have "0 \<le> v div int radix" using assms(3,4) by (simp add: pos_imp_zdiv_nonneg_iff)
  moreover have "v div int radix \<le> v" using assms(3) by (rule div_le_self_nonneg)
  ultimately have "in_range T (v div int radix)"
    using in_range_between [OF in_range_0 assms(2)] by simp
  with assms(1) show "wrap T (quot_radix P T v radix) = v div int radix"
    by (simp add: q wrap_in_range)
qed

lemma spec_digits_0: "spec_digits radix 0 = []"
  by (subst spec_digits.simps) simp

lemma spec_digits_step:
  "2 \<le> radix \<Longrightarrow> 0 < n \<Longrightarrow>
     spec_digits radix n = spec_digits radix (n div radix) @ [n mod radix]"
  by (subst spec_digits.simps) simp

lemma push_loop_nonneg:
  assumes "0 < bits T" and "2 \<le> radix"
  shows "in_range T v \<Longrightarrow> 0 \<le> v \<Longrightarrow>
    push_loop P T radix v st = Some (map int (spec_digits radix (nat v)) @ st)"
proof (induction "nat v" arbitrary: v st rule: less_induct)
  case less
  show ?case
  proof (cases "v = 0")
    case True
    then show ?thesis by (subst push_loop.simps) (simp add: spec_digits_0)
  next
    case False
    with less.prems have pos: "0 < v" by simp
    have r: "0 < radix" using assms(2) by simp
    note step = radix_step_nonneg [OF assms(1) less.prems r, of P]
    have q0: "0 \<le> v div int radix" using pos r by (simp add: pos_imp_zdiv_nonneg_iff)
    have qlt: "v div int radix < v" using pos assms(2) by (simp add: int_div_less_self)
    have qr: "in_range T (v div int radix)"
      using in_range_between [OF in_range_0 less.prems(1) q0] qlt by simp
    have "nat (v div int radix) < nat v" using q0 qlt by simp
    then have ih: "push_loop P T radix (v div int radix) (v mod int radix # st) =
        Some (map int (spec_digits radix (nat (v div int radix))) @ v mod int radix # st)"
      using qr q0 by (rule less.hyps)
    have n: "nat (v div int radix) = nat v div radix"
      using pos by (simp add: nat_div_distrib)
    have m: "int (nat v mod radix) = v mod int radix"
      using pos by (simp add: zmod_int)
    have "spec_digits radix (nat v) = spec_digits radix (nat v div radix) @ [nat v mod radix]"
      using assms(2) pos by (intro spec_digits_step) simp_all
    then have "map int (spec_digits radix (nat v)) =
        map int (spec_digits radix (nat (v div int radix))) @ [v mod int radix]"
      by (simp add: n m)
    with ih False show ?thesis
      by (subst push_loop.simps) (simp add: step)
  qed
qed

lemma spec_digits_value:
  "2 \<le> radix \<Longrightarrow> foldl (\<lambda>r d. r * radix + d) 0 (spec_digits radix n) = n"
proof (induction radix n rule: spec_digits.induct)
  case (1 radix n)
  show ?case
  proof (cases "n = 0")
    case True
    then show ?thesis by (simp add: spec_digits_0)
  next
    case False
    with 1 show ?thesis by (simp add: spec_digits_step)
  qed
qed

lemma spec_digits_less:
  "2 \<le> radix \<Longrightarrow> d \<in> set (spec_digits radix n) \<Longrightarrow> d < radix"
proof (induction radix n rule: spec_digits.induct)
  case (1 radix n)
  show ?case
  proof (cases "n = 0")
    case True
    with 1 show ?thesis by (simp add: spec_digits_0)
  next
    case False
    with 1 show ?thesis by (auto simp: spec_digits_step)
  qed
qed

subsection \<open>Conversion to a radix\<close>

lemma put_unsigned_small: "n < base \<Longrightarrow> put_unsigned base n = [digit_char n]"
  by (subst put_unsigned.simps) simp

lemma to_string_digit:
  assumes "d < 16"
  shows "to_string (int d) = (if d < 10 then [digit_char d] else [CHR ''1'', digit_char (d - 10)])"
proof (cases "d < 10")
  case True
  then show ?thesis by (simp add: to_string_def put_unsigned_small)
next
  case False
  with assms have "d div 10 = 1" "d mod 10 = d - 10"
    by (simp_all add: div_nat_eqI mod_if)
  moreover have "put_unsigned 10 d = put_unsigned 10 (d div 10) @ [digit_char (d mod 10)]"
    using False by (subst put_unsigned.simps) simp
  ultimately show ?thesis using False
    by (simp add: to_string_def put_unsigned_small digit_char_def)
qed

lemma is_digit_10_digit_char: "d < 10 \<Longrightarrow> is_digit 10 (digit_char d)"
  using less_16_cases [of d]
  by (auto simp: digit_char_def is_digit_def digit_val_def)

lemma put_unsigned_decimal_chars:
  "c \<in> set (put_unsigned 10 n) \<Longrightarrow> is_digit 10 c"
proof (induction "10::nat" n rule: put_unsigned.induct)
  case (1 n)
  show ?case
  proof (cases "n < 10")
    case True
    with 1(2) show ?thesis by (simp add: put_unsigned_small is_digit_10_digit_char)
  next
    case False
    then have "put_unsigned 10 n = put_unsigned 10 (n div 10) @ [digit_char (n mod 10)]"
      by (subst put_unsigned.simps) simp
    with 1 False show ?thesis by (auto simp: is_digit_10_digit_char)
  qed
qed

lemma toRadix_fallback:
  "radix = 0 \<or> 16 < radix \<Longrightarrow> toRadix P T x radix = Some (return_c_str (operator_string x))"
  by (auto simp: toRadix_def operator_string_def)

lemma operator_string_decimal:
  "operator_string x =
     (if m_value x < 0 then ''-'' else []) @ put_unsigned 10 (nat \<bar>m_value x\<bar>)
   \<and> list_all (is_digit 10) (put_unsigned 10 (nat \<bar>m_value x\<bar>))
   \<and> int (accumulate 10 (put_unsigned 10 (nat \<bar>m_value x\<bar>))) = \<bar>m_value x\<bar>"
  by (auto simp: operator_string_def to_string_def accumulate_put_unsigned
      list_all_iff put_unsigned_decimal_chars)

text \<open>
  Claim C4 is not met by the code. For radix 0 and for radix 17 the decimal text of the
  value, the same text as the textual conversion, is built in a temporary string, and
  what \<open>toRadix\<close> hands to its caller is a pointer into that string after its
  destruction. For \<open>Integral<int>(12)\<close> the text is \<open>12\<close>, no character of it can be
  read through the result, and the comparison with \<open>12\<close> that the claim asserts is
  undefined.
\<close>

theorem C4_radix_fallback_dangling:
  "toRadix lp64 int32 (Integral_of 12) 0 = Some (return_c_str (operator_string (Integral_of 12)))
   \<and> toRadix lp64 int32 (Integral_of 12) 17 =
       Some (return_c_str (operator_string (Integral_of 12)))
   \<and> operator_string (Integral_of 12) = ''12''
   \<and> return_c_str ''12'' = \<lparr>pointee = ''12'', pointee_state = Destroyed\<rparr>
   \<and> read_chars (return_c_str ''12'') = None
   \<and> strcmp_is_0 (return_c_str ''12'') ''12'' = None"
  by (simp add: toRadix_fallback read_chars_def strcmp_is_0_def return_c_str_def
      operator_string_def to_string_def Integral_of_def put_unsigned.simps digit_char_def)

lemma toRadix_nonneg:
  assumes "0 < bits T" and "in_range T (m_value x)" and "0 \<le> m_value x"
    and "2 \<le> radix" and "radix \<le> 15" and "radix \<noteq> 8"
  shows "toRadix P T x radix =
    Some (return_c_str
      (concat (map (\<lambda>d. to_string (int d)) (spec_digits radix (nat (m_value x))))))"
proof -
  have "push_loop P T radix (m_value x) [] =
      Some (map int (spec_digits radix (nat (m_value x))) @ [])"
    using assms(1,4,2,3) by (rule push_loop_nonneg)
  then have "push_loop P T radix (m_value x) [] =
      Some (map int (spec_digits radix (nat (m_value x))))" by simp
  with assms(4,5,6) have "toRadix P T x radix =
      Some (return_c_str
        (concat (map to_string (map int (spec_digits radix (nat (m_value x)))))))"
    by (intro toRadix_general) simp_all
  then show ?thesis by (simp add: comp_def)
qed

lemma toRadix_zero:
  assumes "2 \<le> radix" and "radix \<le> 15" and "radix \<noteq> 8" and "m_value x = 0"
  shows "toRadix P T x radix = Some (return_c_str [])"
proof -
  have "push_loop P T radix 0 [] = Some []" by (subst push_loop.simps) simp
  with assms show ?thesis by (simp add: toRadix_def read_token_def)
qed

text \<open>
  Claim C5 is not met by the code. The repeated division is carried out as the claim
  says: for 12 and radix 4 the first loop leaves 3 on top of 0, the local string
  \<open>result\<close> becomes \<open>30\<close>, for radix 2 it becomes \<open>1100\<close> and for the value zero it
  stays empty. But \<open>result\<close> is destroyed on return, so that \<open>toRadix(4)\<close> and
  \<open>bin()\<close> deliver a pointer through which nothing can be read, and the comparisons
  \<open>toRadix(4) == "30"\<close> and \<open>bin() == "1100"\<close>, made with \<open>strcmp\<close> in the tests,
  are undefined.
\<close>

theorem C5_repeated_division_dangling:
  "push_loop lp64 int64 4 12 [] = Some [3, 0]
   \<and> toRadix lp64 int64 (Integral_of 12) 4 = Some (return_c_str ''30'')
   \<and> bin lp64 int64 (Integral_of 12) = Some (return_c_str ''1100'')
   \<and> toRadix lp64 int64 (Integral_of 0) 4 = Some (return_c_str [])
   \<and> return_c_str ''30'' = \<lparr>pointee = ''30'', pointee_state = Destroyed\<rparr>
   \<and> strcmp_is_0 (return_c_str ''30'') ''30'' = None
   \<and> strcmp_is_0 (return_c_str ''1100'') ''1100'' = None
   \<and> read_chars (return_c_str []) = None"
proof (intro conjI)
  show "push_loop lp64 int64 4 12 [] = Some [3, 0]" by code_simp
  show "toRadix lp64 int64 (Integral_of 12) 4 = Some (return_c_str ''30'')" by code_simp
  show "bin lp64 int64 (Integral_of 12) = Some (return_c_str ''1100'')" by code_simp
  show "toRadix lp64 int64 (Integral_of 0) 4 = Some (return_c_str [])" by code_simp
qed (simp_all add: return_c_str_def read_chars_def strcmp_is_0_def)

lemma toRadix_digits_above_nine:
  assumes "11 \<le> radix" and "radix \<le> 15"
    and "0 < bits T" and "in_range T (m_value x)" and "0 \<le> m_value x"
  shows "toRadix P T x radix =
      Some (return_c_str
        (concat (map (\<lambda>d. if d < 10 then [digit_char d] else [CHR ''1'', digit_char (d - 10)])
          (spec_digits radix (nat (m_value x))))))"
proof -
  have r: "2 \<le> radix" "radix \<noteq> 8" using assms(1) by simp_all
  have d: "to_string (int d) =
      (if d < 10 then [digit_char d] else [CHR ''1'', digit_char (d - 10)])"
    if "d \<in> set (spec_digits radix (nat (m_value x)))" for d
  proof -
    from r(1) that have "d < radix" by (rule spec_digits_less)
    with assms(2) have "d < 16" by simp
    then show ?thesis by (rule to_string_digit)
  qed
  have "toRadix P T x radix =
      Some (return_c_str
        (concat (map (\<lambda>d. to_string (int d)) (spec_digits radix (nat (m_value x))))))"
    using assms(3,4,5) r(1) assms(2) r(2) by (rule toRadix_nonneg)
  also have "map (\<lambda>d. to_string (int d)) (spec_digits radix (nat (m_value x))) =
      map (\<lambda>d. if d < 10 then [digit_char d] else [CHR ''1'', digit_char (d - 10)])
        (spec_digits radix (nat (m_value x)))"
    using d by (intro map_cong) simp_all
  finally show ?thesis .
qed

text \<open>
  Claim C9 is not met by the code. For 13 and radix 14 the only digit is 13, the stack
  of \<open>int\<close> is written in decimal and the local string \<open>result\<close> becomes \<open>13\<close>, as the
  claim says, not \<open>d\<close>. But what \<open>toRadix(14)\<close> yields is a pointer into \<open>result\<close>
  after its destruction: neither \<open>13\<close> nor any other string can be read through it.
\<close>

theorem C9_digits_above_nine_dangling:
  "push_loop lp64 int64 14 13 [] = Some [13]
   \<and> to_string 13 = ''13''
   \<and> toRadix lp64 int64 (Integral_of 13) 14 = Some (return_c_str ''13'')
   \<and> return_c_str ''13'' = \<lparr>pointee = ''13'', pointee_state = Destroyed\<rparr>
   \<and> read_chars (return_c_str ''13'') = None
   \<and> strcmp_is_0 (return_c_str ''13'') ''13'' = None"
proof (intro conjI)
  show "push_loop lp64 int64 14 13 [] = Some [13]" by code_simp
  show "to_string 13 = ''13''" by code_simp
  show "toRadix lp64 int64 (Integral_of 13) 14 = Some (return_c_str ''13'')" by code_simp
qed (simp_all add: return_c_str_def read_chars_def strcmp_is_0_def)

subsection \<open>Negative values\<close>

lemmas radix_defs =
  rem_radix_def quot_radix_def radix_unsigned_def common_bits_def wrap_def
  lp64_def ilp32_def int32_def int64_def

lemma push_loop_stuck_aux:
  assumes "push_loop P T radix v st = Some y"
  shows "\<not> (P = lp64 \<and> T = int32 \<and> radix = 2 \<and> v = - 1)"
proof -
  let ?Q = "\<lambda>t (y::int list). \<not> (fst (fst (fst (fst t))) = lp64 \<and> snd (fst (fst (fst t))) = int32
      \<and> snd (fst (fst t)) = (2::nat) \<and> snd (fst t) = (- 1::int))"
  have "?Q ((((P, T), radix), v), st) y"
  proof (rule push_loop.raw_induct [where Pa = ?Q, OF _ assms])
    fix f :: "platform \<Rightarrow> itype \<Rightarrow> nat \<Rightarrow> int \<Rightarrow> int list \<Rightarrow> int list option"
    fix P T radix v st y
    assume ih: "\<And>P T radix v st y. f P T radix v st = Some y \<Longrightarrow> ?Q ((((P, T), radix), v), st) y"
      and eq: "(if v \<noteq> 0
          then f P T radix (wrap T (quot_radix P T v radix)) (rem_radix P T v radix # st)
          else Some st) = Some y"
    show "?Q ((((P, T), radix), v), st) y"
    proof
      assume "fst (fst (fst (fst ((((P, T), radix), v), st)))) = lp64
        \<and> snd (fst (fst (fst ((((P, T), radix), v), st)))) = int32
        \<and> snd (fst (fst ((((P, T), radix), v), st))) = 2
        \<and> snd (fst ((((P, T), radix), v), st)) = - 1"
      then have c: "P = lp64" "T = int32" "radix = 2" "v = - 1" by simp_all
      have "wrap int32 (quot_radix lp64 int32 (- 1) 2) = - 1"
        by (simp add: radix_defs)
      with eq have "f lp64 int32 2 (- 1) (rem_radix lp64 int32 (- 1) 2 # st) = Some y"
        by (simp add: c)
      from ih [OF this] show False by simp
    qed
  qed
  then show ?thesis by simp
qed

lemma push_loop_stuck: "push_loop lp64 int32 2 (- 1) st = None"
  using push_loop_stuck_aux [of lp64 int32 2 "- 1" st] by (cases "push_loop lp64 int32 2 (- 1) st") auto

text \<open>
  Claim C10 is not met by the code. In \<open>Integral<int>(-5).toRadix(2)\<close> the operand of
  \<open>%\<close> and \<open>/\<close> is converted to \<open>std::size_t\<close>, the type of \<open>radix\<close>. With 64 bits
  there, the first remainder pushed is 1, not \<open>-1\<close>, the values of the loop are \<open>-5\<close>,
  \<open>-3\<close>, \<open>-2\<close>, \<open>-1\<close> and then \<open>-1\<close> for ever, and \<open>toRadix\<close> does not return: there
  is no result, \<open>-10-1\<close> or other.
\<close>

theorem C10_negative_int_no_return:
  "rem_radix lp64 int32 (- 5) 2 = 1
   \<and> wrap int32 (quot_radix lp64 int32 (- 5) 2) = - 3
   \<and> wrap int32 (quot_radix lp64 int32 (- 1) 2) = - 1
   \<and> push_loop lp64 int32 2 (- 5) [] = None
   \<and> toRadix lp64 int32 (Integral_of (- 5)) 2 = None"
proof -
  have 1: "push_loop lp64 int32 2 (- 5) [] = push_loop lp64 int32 2 (- 3) [1]"
    by (subst push_loop.simps) (simp add: radix_defs)
  have 2: "push_loop lp64 int32 2 (- 3) [1] = push_loop lp64 int32 2 (- 2) [1, 1]"
    by (subst push_loop.simps) (simp add: radix_defs)
  have 3: "push_loop lp64 int32 2 (- 2) [1, 1] = push_loop lp64 int32 2 (- 1) [0, 1, 1]"
    by (subst push_loop.simps) (simp add: radix_defs)
  have n: "push_loop lp64 int32 2 (- 5) [] = None"
    by (simp only: 1 2 3 push_loop_stuck)
  then have "toRadix lp64 int32 (Integral_of (- 5)) 2 = None"
    by (simp add: toRadix_def Integral_of_def)
  with n show ?thesis by (simp add: radix_defs)
qed

end
